theory Spec2Isabelle
  imports Complex_Main
begin

section \<open>Exceptions\<close>

text \<open>
  The exceptions that the code of \<^verbatim>\<open>bbm.py\<close> can raise, each a subclass of
  \<^verbatim>\<open>Exception\<close>.  \<open>TransportError\<close> stands for whatever \<^verbatim>\<open>session.get\<close> raises and
  \<open>JSONDecodeError\<close> for a body that \<^verbatim>\<open>response.json()\<close> cannot decode.
\<close>

datatype exc =
    TransportError
  | JSONDecodeError
  | IndexError
  | KeyError
  | TypeError
  | ValueError
  | OverflowError
  | UnboundLocalError
  | AttributeError

definition exc_bind :: "exc + 'a \<Rightarrow> ('a \<Rightarrow> exc + 'b) \<Rightarrow> exc + 'b" where
  "exc_bind m f = (case m of Inl e \<Rightarrow> Inl e | Inr x \<Rightarrow> f x)"

section \<open>Python floats\<close>

text \<open>
  A Python float is a binary64 number.  \<open>Finite s m e\<close> stands for
  \<open>(-1)^s * m * 2^e\<close>.  A zero is \<open>Finite s 0 0\<close>; every other finite float is kept
  in the one form with \<open>0 < m < 2^53\<close>, \<open>-1074 \<le> e \<le> 971\<close>, and \<open>2^52 \<le> m\<close> unless
  \<open>e = -1074\<close>.  Arithmetic computes the exact rational result and rounds it to the
  nearest float, ties to the even mantissa.
\<close>

datatype pyfloat = Finite bool int int | Infinity bool | NaN

definition round_half_even :: "rat \<Rightarrow> int" where
  "round_half_even x =
     (let f = \<lfloor>x\<rfloor>; r = x - of_int f
      in if 1 / 2 < r \<or> (r = 1 / 2 \<and> odd f) then f + 1 else f)"

text \<open>The number of digits of \<open>n\<close> in base \<open>b\<close>.\<close>

function ndigits :: "int \<Rightarrow> int \<Rightarrow> int" where
  "ndigits b n = (if n \<le> 0 \<or> b \<le> 1 then 0 else 1 + ndigits b (n div b))"
  by pat_completeness auto
termination
  by (relation "measure (\<lambda>(b, n). nat n)") (auto intro: int_div_less_self)

declare ndigits.simps [simp del]

text \<open>For \<open>0 < x\<close>, the \<open>k\<close> with \<open>b^k \<le> x < b^(k+1)\<close>.\<close>

definition floor_log :: "int \<Rightarrow> rat \<Rightarrow> int" where
  "floor_log b x =
     (let (p, q) = quotient_of x;
          k = ndigits b p - ndigits b q
      in if of_int b powi k \<le> x then k else k - 1)"

text \<open>Rounding a magnitude \<open>0 \<le> x\<close> to the float of sign \<open>s\<close>; too large gives infinity.\<close>

definition round_ne :: "bool \<Rightarrow> rat \<Rightarrow> pyfloat" where
  "round_ne s x =
     (if x = 0 then Finite s 0 0
      else let e = max (- 1074) (floor_log 2 x - 52);
               m = round_half_even (x * 2 powi (- e))
           in if m = 0 then Finite s 0 0
              else if m = 2 ^ 53 then
                (if 971 < e + 1 then Infinity s else Finite s (2 ^ 52) (e + 1))
              else if 971 < e then Infinity s else Finite s m e)"

text \<open>The float nearest to a rational, as a decimal literal of a JSON document is read.\<close>

definition flt :: "rat \<Rightarrow> pyfloat" where
  "flt x = (if x < 0 then round_ne True (- x) else round_ne False x)"

definition float_val :: "bool \<Rightarrow> int \<Rightarrow> int \<Rightarrow> rat" where
  "float_val s m e = (if s then - (of_int m * 2 powi e) else of_int m * 2 powi e)"

fun fneg :: "pyfloat \<Rightarrow> pyfloat" where
  "fneg (Finite s m e) = Finite (\<not> s) m e"
| "fneg (Infinity s) = Infinity (\<not> s)"
| "fneg NaN = NaN"

fun fadd :: "pyfloat \<Rightarrow> pyfloat \<Rightarrow> pyfloat" where
  "fadd NaN y = NaN"
| "fadd x NaN = NaN"
| "fadd (Infinity s) (Infinity t) = (if s = t then Infinity s else NaN)"
| "fadd (Infinity s) (Finite t n f) = Infinity s"
| "fadd (Finite s m e) (Infinity t) = Infinity t"
| "fadd (Finite s m e) (Finite t n f) =
     (let x = float_val s m e + float_val t n f
      in if x = 0 then Finite (s \<and> t) 0 0 else flt x)"

definition fsub :: "pyfloat \<Rightarrow> pyfloat \<Rightarrow> pyfloat" where
  "fsub x y = fadd x (fneg y)"

fun fmul :: "pyfloat \<Rightarrow> pyfloat \<Rightarrow> pyfloat" where
  "fmul NaN y = NaN"
| "fmul x NaN = NaN"
| "fmul (Infinity s) (Infinity t) = Infinity (s \<noteq> t)"
| "fmul (Infinity s) (Finite t n f) = (if n = 0 then NaN else Infinity (s \<noteq> t))"
| "fmul (Finite s m e) (Infinity t) = (if m = 0 then NaN else Infinity (s \<noteq> t))"
| "fmul (Finite s m e) (Finite t n f) =
     round_ne (s \<noteq> t) (float_val False m e * float_val False n f)"

text \<open>\<^verbatim>\<open>float(n)\<close> for an int: \<^verbatim>\<open>OverflowError\<close> when \<open>n\<close> rounds out of range.\<close>

definition float_of_int :: "int \<Rightarrow> exc + pyfloat" where
  "float_of_int n = (case flt (of_int n) of Infinity s \<Rightarrow> Inl OverflowError | f \<Rightarrow> Inr f)"

subsection \<open>Decimal output\<close>

definition digit_char :: "int \<Rightarrow> char" where
  "digit_char d = char_of (48 + d)"

function str_nat :: "int \<Rightarrow> string" where
  "str_nat n = (if n < 10 then [digit_char n] else str_nat (n div 10) @ [digit_char (n mod 10)])"
  by pat_completeness auto
termination
  by (relation "measure nat") (auto intro: int_div_less_self)

declare str_nat.simps [simp del]

definition str_int :: "int \<Rightarrow> string" where
  "str_int i = (if i < 0 then CHR ''-'' # str_nat (- i) else str_nat i)"

definition sign_str :: "bool \<Rightarrow> string" where
  "sign_str s = (if s then ''-'' else '''')"

text \<open>The format specification \<^verbatim>\<open>.2f\<close>: the exact value rounded to two decimals.\<close>

fun format_2f :: "pyfloat \<Rightarrow> string" where
  "format_2f NaN = ''nan''"
| "format_2f (Infinity s) = sign_str s @ ''inf''"
| "format_2f (Finite s m e) =
     (let r = round_half_even (float_val False m e * 100)
      in sign_str s @ str_nat (r div 100) @ ''.''
         @ [digit_char (r mod 100 div 10), digit_char (r mod 10)])"

text \<open>
  \<^verbatim>\<open>repr\<close> of a float prints the shortest decimal that reads back as the same float,
  the nearest one among the shortest.  \<open>roundtrips m e x\<close> says that \<open>x\<close> is read
  back as \<open>Finite s m e\<close>; \<open>shortest\<close> tries 1, 2, ... significant digits and ends
  on the nearest decimal of 17 digits.
\<close>

definition roundtrips :: "int \<Rightarrow> int \<Rightarrow> rat \<Rightarrow> bool" where
  "roundtrips m e x =
     (let v = float_val False m e;
          hi = v + 2 powi e / 2;
          lo = v - (if m = 2 ^ 52 \<and> - 1074 < e then 2 powi e / 4 else 2 powi e / 2)
      in if even m then lo \<le> x \<and> x \<le> hi else lo < x \<and> x < hi)"

fun shortest :: "nat \<Rightarrow> int \<Rightarrow> int \<Rightarrow> int \<Rightarrow> int \<Rightarrow> int \<times> int" where
  "shortest 0 n m e k =
     (let v = float_val False m e; u = 10 powi (k - n)
      in (round_half_even (v / u), k - n))"
| "shortest (Suc left) n m e k =
     (let v = float_val False m e; u = 10 powi (k - n); t = \<lfloor>v / u\<rfloor>;
          below = roundtrips m e (of_int t * u);
          above = roundtrips m e (of_int (t + 1) * u);
          nearer_above = (of_int (2 * t + 1) * u < 2 * v)
      in if below \<and> \<not> (above \<and> nearer_above) then (t, k - n)
         else if above then (t + 1, k - n)
         else shortest left (n + 1) m e k)"

function strip_zeros :: "int \<Rightarrow> int" where
  "strip_zeros t = (if 0 < t \<and> t mod 10 = 0 then strip_zeros (t div 10) else t)"
  by pat_completeness auto
termination
  by (relation "measure nat") (auto intro: int_div_less_self)

declare strip_zeros.simps [simp del]

text \<open>The digits of the shortest decimal and the position of its decimal point.\<close>

definition float_digits :: "int \<Rightarrow> int \<Rightarrow> string \<times> int" where
  "float_digits m e =
     (let k = floor_log 10 (float_val False m e) + 1;
          (t, x) = shortest 16 1 m e k;
          decpt = ndigits 10 t + x
      in (str_nat (strip_zeros t), decpt))"

definition float_repr_finite :: "string \<Rightarrow> int \<Rightarrow> string" where
  "float_repr_finite ds decpt =
     (if decpt \<le> - 4 \<or> 16 < decpt then
        [hd ds] @ (if tl ds = [] then [] else CHR ''.'' # tl ds) @ ''e''
        @ (if decpt - 1 < 0 then ''-'' else ''+'')
        @ (if \<bar>decpt - 1\<bar> < 10 then ''0'' else [])
        @ str_nat \<bar>decpt - 1\<bar>
      else if decpt \<le> 0 then ''0.'' @ replicate (nat (- decpt)) CHR ''0'' @ ds
      else if int (length ds) \<le> decpt then
        ds @ replicate (nat decpt - length ds) CHR ''0'' @ ''.0''
      else take (nat decpt) ds @ ''.'' @ drop (nat decpt) ds)"

fun float_repr :: "pyfloat \<Rightarrow> string" where
  "float_repr NaN = ''nan''"
| "float_repr (Infinity s) = sign_str s @ ''inf''"
| "float_repr (Finite s m e) =
     (if m = 0 then sign_str s @ ''0.0''
      else let (ds, decpt) = float_digits m e in sign_str s @ float_repr_finite ds decpt)"

subsection \<open>Reading a float from a string\<close>

text \<open>
  \<^verbatim>\<open>float(s)\<close> for a str: white space around the text is dropped, an underscore may
  stand between two digits, and the text is \<^verbatim>\<open>inf\<close>, \<^verbatim>\<open>infinity\<close> or \<^verbatim>\<open>nan\<close> in any case, or
  a decimal number with an optional exponent; a sign may come first.
\<close>

definition is_digit :: "char \<Rightarrow> bool" where
  "is_digit c = (let n = (of_char c :: int) in 48 \<le> n \<and> n \<le> 57)"

definition is_space :: "char \<Rightarrow> bool" where
  "is_space c = (let n = (of_char c :: int) in (9 \<le> n \<and> n \<le> 13) \<or> (28 \<le> n \<and> n \<le> 32))"

definition strip :: "string \<Rightarrow> string" where
  "strip s = rev (dropWhile is_space (rev (dropWhile is_space s)))"

fun digits_val :: "int \<Rightarrow> string \<Rightarrow> int" where
  "digits_val acc [] = acc"
| "digits_val acc (c # cs) = digits_val (acc * 10 + (of_char c - 48)) cs"

fun drop_underscores :: "char \<Rightarrow> string \<Rightarrow> string option" where
  "drop_underscores prev [] = (if prev = CHR ''_'' then None else Some [])"
| "drop_underscores prev (c # cs) =
     (if c = CHR ''_'' then (if is_digit prev then drop_underscores c cs else None)
      else if prev = CHR ''_'' \<and> \<not> is_digit c then None
      else map_option ((#) c) (drop_underscores c cs))"

definition split_sign :: "string \<Rightarrow> bool \<times> string" where
  "split_sign s =
     (case s of
        [] \<Rightarrow> (False, [])
      | c # cs \<Rightarrow>
          if c = CHR ''-'' then (True, cs) else if c = CHR ''+'' then (False, cs) else (False, s))"

definition parse_exponent :: "string \<Rightarrow> int option" where
  "parse_exponent s =
     (case s of
        [] \<Rightarrow> Some 0
      | c # cs \<Rightarrow>
          if c = CHR ''e'' \<or> c = CHR ''E'' then
            (let (neg, ds) = split_sign cs
             in if ds \<noteq> [] \<and> list_all is_digit ds
                then Some (if neg then - digits_val 0 ds else digits_val 0 ds)
                else None)
          else None)"

definition parse_decimal :: "string \<Rightarrow> rat option" where
  "parse_decimal s =
     (let ip = takeWhile is_digit s;
          r1 = dropWhile is_digit s;
          has_point = (r1 \<noteq> [] \<and> hd r1 = CHR ''.'');
          fp = (if has_point then takeWhile is_digit (tl r1) else []);
          r2 = (if has_point then dropWhile is_digit (tl r1) else r1)
      in if ip = [] \<and> fp = [] then None
         else map_option
                (\<lambda>x. of_int (digits_val 0 (ip @ fp)) * 10 powi (x - int (length fp)))
                (parse_exponent r2))"

section \<open>Python values\<close>

text \<open>
  The scraper moves values of a decoded JSON document into its records without
  converting them, so the records hold Python objects: \<^verbatim>\<open>None\<close>, a bool, an int, a
  float, a str, a list or a dict.  Strings are ASCII text; a dict is the list of its
  items in insertion order, its keys distinct.
\<close>

datatype json =
    JNull
  | JBool bool
  | JInt int
  | JFloat pyfloat
  | JStr string
  | JList "json list"
  | JDict "(string \<times> json) list"

text \<open>\<^verbatim>\<open>x[i]\<close> for an index \<open>0 \<le> i\<close>, \<^verbatim>\<open>x[k]\<close> for a str key, and \<^verbatim>\<open>len(x)\<close>.\<close>

fun getitem_int :: "json \<Rightarrow> nat \<Rightarrow> exc + json" where
  "getitem_int (JList xs) i = (if i < length xs then Inr (xs ! i) else Inl IndexError)"
| "getitem_int (JStr s) i = (if i < length s then Inr (JStr [s ! i]) else Inl IndexError)"
| "getitem_int (JDict d) i = Inl KeyError"
| "getitem_int v i = Inl TypeError"

fun getitem_str :: "json \<Rightarrow> string \<Rightarrow> exc + json" where
  "getitem_str (JDict d) k = (case map_of d k of Some v \<Rightarrow> Inr v | None \<Rightarrow> Inl KeyError)"
| "getitem_str v k = Inl TypeError"

fun py_len :: "json \<Rightarrow> exc + nat" where
  "py_len (JList xs) = Inr (length xs)"
| "py_len (JStr s) = Inr (length s)"
| "py_len (JDict d) = Inr (length d)"
| "py_len v = Inl TypeError"

text \<open>The truth value of an object, as \<^verbatim>\<open>if\<close> tests it.\<close>

fun py_bool :: "json \<Rightarrow> bool" where
  "py_bool JNull = False"
| "py_bool (JBool b) = b"
| "py_bool (JInt n) = (n \<noteq> 0)"
| "py_bool (JFloat (Finite s m e)) = (m \<noteq> 0)"
| "py_bool (JFloat f) = True"
| "py_bool (JStr s) = (s \<noteq> [])"
| "py_bool (JList xs) = (xs \<noteq> [])"
| "py_bool (JDict d) = (d \<noteq> [])"

fun isinstance_float :: "json \<Rightarrow> bool" where
  "isinstance_float (JFloat f) = True"
| "isinstance_float v = False"

subsection \<open>Arithmetic\<close>

text \<open>A bool is an int; an int meeting a float is converted to a float first.\<close>

datatype num = NInt int | NFloat pyfloat

fun as_num :: "json \<Rightarrow> num option" where
  "as_num (JBool b) = Some (NInt (if b then 1 else 0))"
| "as_num (JInt n) = Some (NInt n)"
| "as_num (JFloat f) = Some (NFloat f)"
| "as_num v = None"

fun num_op ::
  "(int \<Rightarrow> int \<Rightarrow> int) \<Rightarrow> (pyfloat \<Rightarrow> pyfloat \<Rightarrow> pyfloat) \<Rightarrow> num \<Rightarrow> num \<Rightarrow> exc + json" where
  "num_op iop fop (NInt i) (NInt j) = Inr (JInt (iop i j))"
| "num_op iop fop (NFloat x) (NFloat y) = Inr (JFloat (fop x y))"
| "num_op iop fop (NInt i) (NFloat y) = exc_bind (float_of_int i) (\<lambda>x. Inr (JFloat (fop x y)))"
| "num_op iop fop (NFloat x) (NInt j) = exc_bind (float_of_int j) (\<lambda>y. Inr (JFloat (fop x y)))"

definition py_add :: "json \<Rightarrow> json \<Rightarrow> exc + json" where
  "py_add a b =
     (case (as_num a, as_num b) of
        (Some x, Some y) \<Rightarrow> num_op (+) fadd x y
      | _ \<Rightarrow>
          (case (a, b) of
             (JStr s, JStr t) \<Rightarrow> Inr (JStr (s @ t))
           | (JList xs, JList ys) \<Rightarrow> Inr (JList (xs @ ys))
           | _ \<Rightarrow> Inl TypeError))"

definition py_sub :: "json \<Rightarrow> json \<Rightarrow> exc + json" where
  "py_sub a b =
     (case (as_num a, as_num b) of
        (Some x, Some y) \<Rightarrow> num_op (-) fsub x y
      | _ \<Rightarrow> Inl TypeError)"

definition py_mul :: "json \<Rightarrow> json \<Rightarrow> exc + json" where
  "py_mul a b =
     (case (as_num a, as_num b) of
        (Some x, Some y) \<Rightarrow> num_op (*) fmul x y
      | (None, Some (NInt n)) \<Rightarrow>
          (case a of
             JStr s \<Rightarrow> Inr (JStr (concat (replicate (nat n) s)))
           | JList xs \<Rightarrow> Inr (JList (concat (replicate (nat n) xs)))
           | _ \<Rightarrow> Inl TypeError)
      | (Some (NInt n), None) \<Rightarrow>
          (case b of
             JStr s \<Rightarrow> Inr (JStr (concat (replicate (nat n) s)))
           | JList xs \<Rightarrow> Inr (JList (concat (replicate (nat n) xs)))
           | _ \<Rightarrow> Inl TypeError)
      | _ \<Rightarrow> Inl TypeError)"

subsection \<open>Conversions\<close>

text \<open>\<^verbatim>\<open>str.lower\<close> on ASCII text: the letters A to Z move down by 32.\<close>

definition lower_char :: "char \<Rightarrow> char" where
  "lower_char c =
     (let n = (of_char c :: nat) in if 65 \<le> n \<and> n \<le> 90 then char_of (n + 32) else c)"

definition lower :: "string \<Rightarrow> string" where
  "lower s = map lower_char s"

definition float_of_str :: "string \<Rightarrow> pyfloat option" where
  "float_of_str s =
     (case drop_underscores (CHR 0x00) (strip s) of
        None \<Rightarrow> None
      | Some t \<Rightarrow>
          (let (neg, body) = split_sign t; w = lower body
           in if w = ''inf'' \<or> w = ''infinity'' then Some (Infinity neg)
              else if w = ''nan'' then Some NaN
              else map_option (round_ne neg) (parse_decimal body)))"

text \<open>\<^verbatim>\<open>float(x)\<close>.\<close>

fun py_float :: "json \<Rightarrow> exc + pyfloat" where
  "py_float (JFloat f) = Inr f"
| "py_float (JInt n) = float_of_int n"
| "py_float (JBool b) = float_of_int (if b then 1 else 0)"
| "py_float (JStr s) = (case float_of_str s of Some f \<Rightarrow> Inr f | None \<Rightarrow> Inl ValueError)"
| "py_float v = Inl TypeError"

text \<open>The replacement field \<^verbatim>\<open>{x:.2f}\<close> of an f-string: an int is formatted as a float.\<close>

fun format_spec_2f :: "json \<Rightarrow> exc + string" where
  "format_spec_2f (JFloat f) = Inr (format_2f f)"
| "format_spec_2f (JInt n) = exc_bind (float_of_int n) (\<lambda>f. Inr (format_2f f))"
| "format_spec_2f (JBool b) =
     exc_bind (float_of_int (if b then 1 else 0)) (\<lambda>f. Inr (format_2f f))"
| "format_spec_2f (JStr s) = Inl ValueError"
| "format_spec_2f v = Inl TypeError"

text \<open>\<^verbatim>\<open>repr\<close> and \<^verbatim>\<open>str\<close>.\<close>

definition hex_digit :: "int \<Rightarrow> char" where
  "hex_digit d = (if d < 10 then char_of (48 + d) else char_of (87 + d))"

definition repr_char :: "char \<Rightarrow> char \<Rightarrow> string" where
  "repr_char quote c =
     (let n = (of_char c :: int)
      in if c = quote \<or> c = CHR 0x5C then [CHR 0x5C, c]
         else if n = 9 then [CHR 0x5C, CHR ''t'']
         else if n = 10 then [CHR 0x5C, CHR ''n'']
         else if n = 13 then [CHR 0x5C, CHR ''r'']
         else if n < 32 \<or> n = 127 then
           [CHR 0x5C, CHR ''x'', hex_digit (n div 16), hex_digit (n mod 16)]
         else [c])"

definition str_repr :: "string \<Rightarrow> string" where
  "str_repr s =
     (let quote = (if CHR 0x27 \<in> set s \<and> CHR 0x22 \<notin> set s then CHR 0x22 else CHR 0x27)
      in [quote] @ concat (map (repr_char quote) s) @ [quote])"

fun join :: "string \<Rightarrow> string list \<Rightarrow> string" where
  "join sep [] = []"
| "join sep [x] = x"
| "join sep (x # y # ys) = x @ sep @ join sep (y # ys)"

fun py_repr :: "json \<Rightarrow> string" where
  "py_repr JNull = ''None''"
| "py_repr (JBool b) = (if b then ''True'' else ''False'')"
| "py_repr (JInt n) = str_int n"
| "py_repr (JFloat f) = float_repr f"
| "py_repr (JStr s) = str_repr s"
| "py_repr (JList xs) = ''['' @ join '', '' (map py_repr xs) @ '']''"
| "py_repr (JDict d) =
     ''{'' @ join '', '' (map (\<lambda>kv. str_repr (fst kv) @ '': '' @ py_repr (snd kv)) d) @ ''}''"

fun py_str :: "json \<Rightarrow> string" where
  "py_str (JStr s) = s"
| "py_str v = py_repr v"

section \<open>The data classes\<close>

text \<open>
  The fields of \<^verbatim>\<open>Offer\<close> are annotated \<^verbatim>\<open>str\<close>, but the fetcher stores the
  payload's own objects in five of them, so every field is a Python value here.
\<close>

record Offer =
  price_after_gc :: json
  gift_card :: json
  total_price :: json
  monthly_price :: json
  down_payment :: json
  bib_premium :: json
  bib_monthly :: json
  down_return :: json

record Carrier =
  name :: string
  link :: string
  offers :: "Offer list"

record Phone =
  name :: string
  carriers :: "Carrier list"

section \<open>Strings\<close>

text \<open>\<^verbatim>\<open>s.startswith(k)\<close> and the substring test \<^verbatim>\<open>k in s\<close>.\<close>

fun startswith :: "string \<Rightarrow> string \<Rightarrow> bool" where
  "startswith s [] = True"
| "startswith [] (k # ks) = False"
| "startswith (c # cs) (k # ks) = (c = k \<and> startswith cs ks)"

fun contains :: "string \<Rightarrow> string \<Rightarrow> bool" where
  "contains [] k = (k = [])"
| "contains (c # cs) k = (startswith (c # cs) k \<or> contains cs k)"

text \<open>
  \<^verbatim>\<open>s.split(sep)\<close> for a separator of one character: the pieces between the
  separators, at least one piece.  \<open>acc\<close> holds the piece being read, reversed.
\<close>

fun split_acc :: "char \<Rightarrow> string \<Rightarrow> string \<Rightarrow> string list" where
  "split_acc sep acc [] = [rev acc]"
| "split_acc sep acc (c # cs) =
     (if c = sep then rev acc # split_acc sep [] cs else split_acc sep (c # acc) cs)"

definition str_split :: "string \<Rightarrow> char \<Rightarrow> string list" where
  "str_split s sep = split_acc sep [] s"

text \<open>\<^verbatim>\<open>s.replace(a, b)\<close> for single characters.\<close>

definition str_replace :: "string \<Rightarrow> char \<Rightarrow> char \<Rightarrow> string" where
  "str_replace s a b = map (\<lambda>c. if c = a then b else c) s"

section \<open>The carrier identifier\<close>

text \<open>The dict literal of \<^verbatim>\<open>extract_carrier_name\<close>, in its insertion order.\<close>

definition carriers_dict :: "(string \<times> string) list" where
  "carriers_dict =
     [(''telus'', ''Telus''),
      (''koodo'', ''Koodo''),
      (''rogers'', ''Rogers''),
      (''fido'', ''Fido''),
      (''freedom-mobile'', ''Freedom Mobile''),
      (''bell'', ''Bell''),
      (''virgin-plus'', ''Virgin Plus'')]"

text \<open>The loop over \<^verbatim>\<open>carriers.items()\<close>: the first key found in the lowered URL decides.\<close>

fun first_match :: "(string \<times> string) list \<Rightarrow> string \<Rightarrow> string" where
  "first_match [] url = ''Unknown''"
| "first_match ((key, val) # rest) url =
     (if contains (lower url) key then val else first_match rest url)"

definition extract_carrier_name :: "string \<Rightarrow> string" where
  "extract_carrier_name url = first_match carriers_dict url"

section \<open>The pricing fetcher\<close>

subsection \<open>The network and the console\<close>

text \<open>
  What \<^verbatim>\<open>session.get\<close> does is not the program's choice: the \<open>k\<close>-th request of a
  run, for a URL, either raises or brings a response with a status code and a body,
  which \<^verbatim>\<open>response.json()\<close> decodes to a value or fails on (\<open>None\<close>).  The run
  leaves a trace: its requests, its sleeps (in seconds) and the lines it prints.
\<close>

datatype reply = Raises | Response int "json option"

type_synonym network = "nat \<Rightarrow> string \<Rightarrow> reply"

datatype message =
    Started string string
  | FailedToLoad string string
  | Retry nat string string exc
  | FailedAfter nat string string

datatype event = Get string | Sleep nat | Print message

record world =
  calls :: nat
  trace :: "event list"

definition session_get :: "network \<Rightarrow> string \<Rightarrow> world \<Rightarrow> reply \<times> world" where
  "session_get net url w = (net (calls w) url, w\<lparr>calls := Suc (calls w), trace := trace w @ [Get url]\<rparr>)"

definition print :: "message \<Rightarrow> world \<Rightarrow> world" where
  "print msg w = w\<lparr>trace := trace w @ [Print msg]\<rparr>"

definition sleep :: "nat \<Rightarrow> world \<Rightarrow> world" where
  "sleep secs w = w\<lparr>trace := trace w @ [Sleep secs]\<rparr>"

subsection \<open>Local variables that outlive an attempt\<close>

text \<open>
  \<^verbatim>\<open>total_price\<close> and \<^verbatim>\<open>price_after_gc\<close> are assigned only in the \<^verbatim>\<open>keep-it\<close> branch
  and read after it.  They are locals of \<^verbatim>\<open>scrape_carrier_data\<close>, so a value assigned
  in one attempt is still there in the next attempt of the same call; \<open>None\<close> is a
  name not yet bound.  Every other local is assigned in each attempt before it is
  read; those that share a name with a field of \<^verbatim>\<open>Offer\<close> are written with a prime.
  A statement takes the locals and gives them back with a value or an exception.
\<close>

record locals =
  total_price_var :: "json option"
  price_after_gc_var :: "json option"

type_synonym 'a stmt = "locals \<Rightarrow> locals \<times> (exc + 'a)"

definition ret :: "'a \<Rightarrow> 'a stmt" where
  "ret x = (\<lambda>L. (L, Inr x))"

definition eval :: "exc + 'a \<Rightarrow> 'a stmt" where
  "eval r = (\<lambda>L. (L, r))"

definition bind_stmt :: "'a stmt \<Rightarrow> ('a \<Rightarrow> 'b stmt) \<Rightarrow> 'b stmt" where
  "bind_stmt m f =
     (\<lambda>L. case m L of (L', Inl e) \<Rightarrow> (L', Inl e) | (L', Inr x) \<Rightarrow> f x L')"

definition get_total_price :: "json stmt" where
  "get_total_price =
     (\<lambda>L. (L, case total_price_var L of None \<Rightarrow> Inl UnboundLocalError | Some v \<Rightarrow> Inr v))"

definition get_price_after_gc :: "json stmt" where
  "get_price_after_gc =
     (\<lambda>L. (L, case price_after_gc_var L of None \<Rightarrow> Inl UnboundLocalError | Some v \<Rightarrow> Inr v))"

definition set_total_price :: "json \<Rightarrow> unit stmt" where
  "set_total_price v = (\<lambda>L. (L\<lparr>total_price_var := Some v\<rparr>, Inr ()))"

definition set_price_after_gc :: "json \<Rightarrow> unit stmt" where
  "set_price_after_gc v = (\<lambda>L. (L\<lparr>price_after_gc_var := Some v\<rparr>, Inr ()))"

subsection \<open>Building the offer (lines 129 to 165)\<close>

text \<open>\<^verbatim>\<open>response_data[i][key]\<close>.\<close>

definition field :: "json \<Rightarrow> nat \<Rightarrow> string \<Rightarrow> exc + json" where
  "field response_data i key = exc_bind (getitem_int response_data i) (\<lambda>e. getitem_str e key)"

text \<open>The body of \<^verbatim>\<open>if (plan_type == 'keep-it')\<close>; it gives the monthly price and the down payment.\<close>

definition keep_it :: "json \<Rightarrow> json \<Rightarrow> (json \<times> json) stmt" where
  "keep_it response_data gift_card' =
     bind_stmt (eval (field response_data 0 ''monthly'')) (\<lambda>monthly_price'.
     bind_stmt (eval (field response_data 0 ''downPayment'')) (\<lambda>down_payment'.
     bind_stmt (eval (exc_bind (py_mul monthly_price' (JInt 24)) (\<lambda>x. py_add x down_payment'))) (\<lambda>v.
     bind_stmt (set_total_price v) (\<lambda>_.
     bind_stmt (if py_bool gift_card'
                then bind_stmt get_total_price (\<lambda>t. eval (py_sub t gift_card'))
                else get_total_price) (\<lambda>p.
     bind_stmt (set_price_after_gc p) (\<lambda>_.
     ret (monthly_price', down_payment')))))))"

text \<open>
  The test and the body of the \<^verbatim>\<open>return-it\<close> statement; it gives \<^verbatim>\<open>bib_premium'\<close>,
  \<^verbatim>\<open>bib_monthly'\<close> and \<^verbatim>\<open>down_return'\<close>.
\<close>

definition is_return_it :: "json \<Rightarrow> exc + bool" where
  "is_return_it response_data =
     exc_bind (py_len response_data) (\<lambda>n.
       if 1 < n then exc_bind (field response_data 1 ''type'') (\<lambda>t. Inr (t = JStr ''return-it''))
       else Inr False)"

definition premium :: "json \<Rightarrow> json \<Rightarrow> json stmt" where
  "premium bib_monthly_price bib_down_payment =
     (if isinstance_float bib_monthly_price then
        bind_stmt get_total_price (\<lambda>t.
        bind_stmt (eval (exc_bind (py_float bib_monthly_price) (\<lambda>f. py_mul (JFloat f) (JInt 24)))) (\<lambda>a.
        bind_stmt (eval (py_sub t a)) (\<lambda>b.
        bind_stmt (eval (exc_bind (py_float bib_down_payment) (\<lambda>f. py_sub b (JFloat f)))) (\<lambda>c.
        bind_stmt (eval (format_spec_2f c)) (\<lambda>s.
        ret (JStr s))))))
      else ret (JStr ''N/A''))"

definition return_it :: "json \<Rightarrow> (json \<times> json \<times> json) stmt" where
  "return_it response_data =
     bind_stmt (eval (is_return_it response_data)) (\<lambda>c.
       if c then
         bind_stmt (eval (field response_data 1 ''monthly'')) (\<lambda>bib_monthly'.
         bind_stmt (eval (field response_data 1 ''residualValue'')) (\<lambda>down_return'.
         bind_stmt (eval (field response_data 1 ''monthly'')) (\<lambda>bib_monthly_price.
         bind_stmt (eval (field response_data 1 ''downPayment'')) (\<lambda>bib_down_payment.
         bind_stmt (premium bib_monthly_price bib_down_payment) (\<lambda>bib_premium'.
         ret (bib_premium', bib_monthly', down_return'))))))
       else ret (JStr ''N/A'', JStr ''N/A'', JStr ''N/A''))"

text \<open>From \<^verbatim>\<open>plan_type = response_data[0]['type']\<close> to the \<^verbatim>\<open>Offer(...)\<close> call.\<close>

definition build_offer :: "json \<Rightarrow> Offer stmt" where
  "build_offer response_data =
     bind_stmt (eval (field response_data 0 ''type'')) (\<lambda>plan_type.
     bind_stmt (eval (field response_data 0 ''giftCard'')) (\<lambda>gift_card'.
     bind_stmt (if plan_type = JStr ''keep-it'' then keep_it response_data gift_card'
                else ret (JStr ''N/A'', JStr ''N/A'')) (\<lambda>(monthly_price', down_payment').
     bind_stmt (return_it response_data) (\<lambda>(bib_premium', bib_monthly', down_return').
     bind_stmt get_price_after_gc (\<lambda>p.
     bind_stmt get_total_price (\<lambda>t.
     bind_stmt (eval (format_spec_2f t)) (\<lambda>s.
     ret \<lparr>price_after_gc = JStr (py_str p),
          gift_card = gift_card',
          total_price = JStr s,
          monthly_price = monthly_price',
          down_payment = down_payment',
          bib_premium = bib_premium',
          bib_monthly = bib_monthly',
          down_return = down_return'\<rparr>)))))))"

subsection \<open>The retry loop\<close>

definition max_retries :: nat where
  "max_retries = 3"

text \<open>The \<^verbatim>\<open>try\<close> block of one attempt: it returns from the function or raises.\<close>

datatype outcome = Returns Carrier | Raised exc

definition try_block ::
  "network \<Rightarrow> string \<Rightarrow> string \<Rightarrow> string \<Rightarrow> string \<Rightarrow> locals \<Rightarrow> world \<Rightarrow> outcome \<times> locals \<times> world" where
  "try_block net updatedUrl carrier_name lnk phone_name L w =
     (let (response, w1) = session_get net updatedUrl w
      in case response of
           Raises \<Rightarrow> (Raised TransportError, L, w1)
         | Response status_code body \<Rightarrow>
             if status_code \<noteq> 200 then
               (Returns \<lparr>Carrier.name = carrier_name, link = lnk, offers = []\<rparr>, L,
                print (FailedToLoad phone_name carrier_name) w1)
             else
               (case body of
                  None \<Rightarrow> (Raised JSONDecodeError, L, w1)
                | Some response_data \<Rightarrow>
                    (case build_offer response_data L of
                       (L', Inl e) \<Rightarrow> (Raised e, L', w1)
                     | (L', Inr offer) \<Rightarrow>
                         (Returns \<lparr>Carrier.name = carrier_name, link = lnk, offers = [offer]\<rparr>,
                          L', w1))))"

text \<open>The carrier returned after the loop: one offer of defaults.\<close>

definition sentinel_offer :: Offer where
  "sentinel_offer =
     \<lparr>price_after_gc = JStr ''N/A'',
      gift_card = JStr ''0'',
      total_price = JStr ''N/A'',
      monthly_price = JStr ''N/A'',
      down_payment = JStr ''N/A'',
      bib_premium = JStr ''N/A'',
      bib_monthly = JStr ''N/A'',
      down_return = JStr ''N/A''\<rparr>"

text \<open>
  \<^verbatim>\<open>while attempt <= max_retries\<close> with its \<^verbatim>\<open>except Exception\<close> handler, and the code after
  the loop.  (\<^verbatim>\<open>response_text\<close> is \<^verbatim>\<open>None\<close> throughout, so its \<^verbatim>\<open>if\<close> prints nothing.)
\<close>

function retry_loop ::
  "network \<Rightarrow> string \<Rightarrow> string \<Rightarrow> string \<Rightarrow> string \<Rightarrow> nat \<Rightarrow> locals \<Rightarrow> world \<Rightarrow> Carrier \<times> world" where
  "retry_loop net updatedUrl carrier_name lnk phone_name attempt L w =
     (if attempt \<le> max_retries then
        (case try_block net updatedUrl carrier_name lnk phone_name L w of
           (Returns carrier, L', w') \<Rightarrow> (carrier, w')
         | (Raised e, L', w') \<Rightarrow>
             retry_loop net updatedUrl carrier_name lnk phone_name (attempt + 1) L'
               (if attempt < max_retries
                then sleep 2 (print (Retry attempt phone_name carrier_name e) w')
                else w'))
      else
        (\<lparr>Carrier.name = carrier_name, link = lnk, offers = [sentinel_offer]\<rparr>,
         print (FailedAfter max_retries phone_name carrier_name) w))"
  by pat_completeness auto
termination
  by (relation "measure (\<lambda>(net, u, c, l, p, attempt, L, w). Suc max_retries - attempt)") auto

declare retry_loop.simps [simp del]

definition api_url :: "string \<Rightarrow> string" where
  "api_url sku =
     ''https://www.bestbuy.ca/api/cellphones-plans-pricing/sku/'' @ sku
     @ ''?api-version=2022-05-01&sp=%2Ftriggers%2Fmanual%2Frun&sv=1.0&sig=qqpzPnL_WPQXWUV73BbXlPLU0EGP_ZfI0vsIJFccWOE''"

definition scrape_carrier_data ::
  "network \<Rightarrow> string \<Rightarrow> string \<Rightarrow> string \<Rightarrow> world \<Rightarrow> Carrier \<times> world" where
  "scrape_carrier_data net url lnk phone_name w =
     (let sku = hd (str_split (last (str_split url CHR ''/'')) CHR ''?'');
          updatedUrl = api_url sku;
          carrier_name = extract_carrier_name url;
          w1 = print (Started phone_name carrier_name) w
      in retry_loop net updatedUrl carrier_name lnk phone_name 1
           \<lparr>total_price_var = None, price_after_gc_var = None\<rparr> w1)"

text \<open>The URL that \<^verbatim>\<open>scrape_carrier_data\<close> requests for a product URL.\<close>

definition request_url :: "string \<Rightarrow> string" where
  "request_url url = api_url (hd (str_split (last (str_split url CHR ''/'')) CHR ''?''))"

subsection \<open>The source loader's loops\<close>

text \<open>
  The parsed document: each child of the root has a tag and children of its own, and
  the text of a child is a string or \<^verbatim>\<open>None\<close>.  Fetching and parsing the document are
  not part of the model.  A text that is \<^verbatim>\<open>None\<close> makes \<^verbatim>\<open>url.split\<close> raise outside every
  \<^verbatim>\<open>try\<close>, which ends the run.
\<close>

type_synonym xml_root = "(string \<times> string option list) list"

fun scrape_urls ::
  "network \<Rightarrow> string \<Rightarrow> string option list \<Rightarrow> world \<Rightarrow> (exc + Carrier list) \<times> world" where
  "scrape_urls net phone_name [] w = (Inr [], w)"
| "scrape_urls net phone_name (None # urls) w = (Inl AttributeError, w)"
| "scrape_urls net phone_name (Some url # urls) w =
     (let (carrier, w1) = scrape_carrier_data net url url phone_name w
      in case scrape_urls net phone_name urls w1 of
           (Inl e, w2) \<Rightarrow> (Inl e, w2)
         | (Inr cs, w2) \<Rightarrow> (Inr (carrier # cs), w2))"

fun scrape :: "network \<Rightarrow> xml_root \<Rightarrow> world \<Rightarrow> (exc + Phone list) \<times> world" where
  "scrape net [] w = (Inr [], w)"
| "scrape net ((tag, urls) # nodes) w =
     (let phone_name = str_replace tag CHR ''_'' CHR '' ''
      in case scrape_urls net phone_name urls w of
           (Inl e, w1) \<Rightarrow> (Inl e, w1)
         | (Inr cs, w1) \<Rightarrow>
             (case scrape net nodes w1 of
                (Inl e, w2) \<Rightarrow> (Inl e, w2)
              | (Inr phones, w2) \<Rightarrow>
                  (Inr (\<lparr>Phone.name = phone_name, carriers = cs\<rparr> # phones), w2)))"

section \<open>The report writer\<close>

definition headers :: "json list" where
  "headers =
     [JStr ''Phone'', JStr ''Carrier'', JStr ''Price After GC'', JStr ''Gift Card Amount'',
      JStr ''Total Price'', JStr ''Monthly Price'', JStr ''Downpayment'', JStr ''BIB Premium'',
      JStr ''BIB Monthly Price'', JStr ''BIB Downpayment'', JStr ''Link'']"

definition carrier_order :: "string list" where
  "carrier_order =
     [''Fido'', ''Rogers'', ''Virgin Plus'', ''Bell'', ''Koodo'', ''Telus'', ''Freedom Mobile'']"

text \<open>The dict comprehension \<^verbatim>\<open>{carrier.name: carrier for carrier in phone.carriers}\<close>.\<close>

definition carrier_map :: "Carrier list \<Rightarrow> (string \<rightharpoonup> Carrier)" where
  "carrier_map cs = fold (\<lambda>carrier m. m(Carrier.name carrier \<mapsto> carrier)) cs Map.empty"

text \<open>The two \<^verbatim>\<open>writer.writerow\<close> calls: a row is the list handed to the call.\<close>

definition offer_row :: "Phone \<Rightarrow> Carrier \<Rightarrow> Offer \<Rightarrow> json list" where
  "offer_row phone carrier offer =
     [JStr (Phone.name phone),
      JStr (Carrier.name carrier),
      price_after_gc offer,
      gift_card offer,
      total_price offer,
      monthly_price offer,
      down_payment offer,
      bib_premium offer,
      bib_monthly offer,
      down_return offer,
      JStr (link carrier)]"

definition placeholder_row :: "Phone \<Rightarrow> string \<Rightarrow> json list" where
  "placeholder_row phone carrier_name =
     [JStr (Phone.name phone),
      JStr carrier_name,
      JStr ''--'', JStr ''--'', JStr ''--'', JStr ''--'', JStr ''--'', JStr ''--'',
      JStr ''--'', JStr ''--'', JStr ''--'']"

text \<open>The body of the loop over \<^verbatim>\<open>carrier_order\<close>, and the loop over one phone.\<close>

definition carrier_rows :: "Phone \<Rightarrow> (string \<rightharpoonup> Carrier) \<Rightarrow> string \<Rightarrow> json list list" where
  "carrier_rows phone m carrier_name =
     (case m carrier_name of
        Some carrier \<Rightarrow> map (offer_row phone carrier) (offers carrier)
      | None \<Rightarrow> [placeholder_row phone carrier_name])"

definition phone_rows :: "Phone \<Rightarrow> json list list" where
  "phone_rows phone =
     (let m = carrier_map (carriers phone)
      in concat (map (carrier_rows phone m) carrier_order))"

text \<open>
  The file is the list of rows written to it, the header first; the file system maps
  a path to its file.
\<close>

definition write_to_csv ::
  "Phone list \<Rightarrow> string \<Rightarrow> (string \<rightharpoonup> json list list) \<Rightarrow> (string \<rightharpoonup> json list list)" where
  "write_to_csv phones file_path fs =
     fs(file_path \<mapsto> headers # concat (map phone_rows phones))"

text \<open>
  What the claims about duplicate names speak of: the last Carrier of a list that has
  a given name, if there is one.
\<close>

definition last_with_name :: "Carrier list \<Rightarrow> string \<Rightarrow> Carrier option" where
  "last_with_name cs n =
     (let same = filter (\<lambda>c. Carrier.name c = n) cs
      in if same = [] then None else Some (last same))"

section \<open>Properties of the carrier identifier\<close>

lemma startswith_iff: "startswith s k \<longleftrightarrow> (\<exists>b. s = k @ b)"
  by (induction s k rule: startswith.induct) auto

lemma contains_iff: "contains s k \<longleftrightarrow> (\<exists>a b. s = a @ k @ b)"
proof (induction s)
  case Nil
  then show ?case by auto
next
  case (Cons c cs)
  show ?case
  proof
    assume "contains (c # cs) k"
    then consider "startswith (c # cs) k" | "contains cs k" by auto
    then show "\<exists>a b. c # cs = a @ k @ b"
    proof cases
      case 1
      then obtain b where "c # cs = k @ b" by (auto simp: startswith_iff)
      then have "c # cs = [] @ k @ b" by simp
      then show ?thesis by blast
    next
      case 2
      then obtain a b where "cs = a @ k @ b" using Cons.IH by auto
      then have "c # cs = (c # a) @ k @ b" by simp
      then show ?thesis by blast
    qed
  next
    assume "\<exists>a b. c # cs = a @ k @ b"
    then obtain a b where ab: "c # cs = a @ k @ b" by auto
    show "contains (c # cs) k"
    proof (cases a)
      case Nil
      then have "startswith (c # cs) k" using ab by (auto simp: startswith_iff)
      then show ?thesis by simp
    next
      case (Cons x a')
      then have "cs = a' @ k @ b" using ab by simp
      then have "contains cs k" using Cons.IH by blast
      then show ?thesis by simp
    qed
  qed
qed

lemma first_match_none:
  "\<forall>k \<in> fst ` set tab. \<not> contains (lower url) k \<Longrightarrow> first_match tab url = ''Unknown''"
  by (induction tab url rule: first_match.induct) auto

text \<open>
  Claim C3, as stated, fails: the table is searched in its insertion order and
  \<^verbatim>\<open>'telus'\<close> stands before \<^verbatim>\<open>'koodo'\<close>, so a URL that holds both substrings is
  labelled Telus.
\<close>

theorem extract_carrier_name_koodo_counterexample:
  "contains (lower ''https://www.bestbuy.ca/en-ca/product/telus-koodo-phone/17094220'') ''koodo''
   \<and> extract_carrier_name ''https://www.bestbuy.ca/en-ca/product/telus-koodo-phone/17094220''
       = ''Telus''"
  by code_simp

text \<open>
  Claim C3, amended: a URL whose lowered text contains \<^verbatim>\<open>koodo\<close> and does not contain
  \<^verbatim>\<open>telus\<close> (the one key tested earlier) is labelled Koodo; a URL whose lowered text
  contains none of the seven keys of the table is labelled Unknown.
\<close>

theorem extract_carrier_name_koodo_unknown:
  "((\<exists>a b. lower url = a @ ''koodo'' @ b) \<and> \<not> (\<exists>a b. lower url = a @ ''telus'' @ b)
      \<longrightarrow> extract_carrier_name url = ''Koodo'')
   \<and> ((\<forall>k \<in> fst ` set carriers_dict. \<not> (\<exists>a b. lower url = a @ k @ b))
      \<longrightarrow> extract_carrier_name url = ''Unknown'')"
proof (intro conjI impI)
  assume "(\<exists>a b. lower url = a @ ''koodo'' @ b) \<and> \<not> (\<exists>a b. lower url = a @ ''telus'' @ b)"
  then have "contains (lower url) ''koodo''" and "\<not> contains (lower url) ''telus''"
    by (simp_all add: contains_iff)
  then show "extract_carrier_name url = ''Koodo''"
    by (simp add: extract_carrier_name_def carriers_dict_def)
next
  assume "\<forall>k \<in> fst ` set carriers_dict. \<not> (\<exists>a b. lower url = a @ k @ b)"
  then have "\<forall>k \<in> fst ` set carriers_dict. \<not> contains (lower url) k"
    by (simp add: contains_iff)
  then show "extract_carrier_name url = ''Unknown''"
    unfolding extract_carrier_name_def by (rule first_match_none)
qed

theorem extract_carrier_name_koodo_unknown_witness:
  "extract_carrier_name ''https://www.bestbuy.ca/en-ca/product/Koodo-phone/17094220'' = ''Koodo''
   \<and> extract_carrier_name ''https://www.bestbuy.ca/en-ca/product/17094220'' = ''Unknown''"
proof
  let ?u = "''https://www.bestbuy.ca/en-ca/product/Koodo-phone/17094220''"
  have "contains (lower ?u) ''koodo''" and "\<not> contains (lower ?u) ''telus''"
    by code_simp+
  then have "(\<exists>a b. lower ?u = a @ ''koodo'' @ b) \<and> \<not> (\<exists>a b. lower ?u = a @ ''telus'' @ b)"
    by (simp only: contains_iff [symmetric] simp_thms)
  with extract_carrier_name_koodo_unknown [of ?u]
  show "extract_carrier_name ?u = ''Koodo''" by blast
next
  let ?v = "''https://www.bestbuy.ca/en-ca/product/17094220''"
  have "list_all (\<lambda>k. \<not> contains (lower ?v) k) (map fst carriers_dict)"
    by code_simp
  then have "\<forall>k \<in> fst ` set carriers_dict. \<not> (\<exists>a b. lower ?v = a @ k @ b)"
    by (simp only: contains_iff [symmetric] list_all_iff set_map)
  with extract_carrier_name_koodo_unknown [of ?v]
  show "extract_carrier_name ?v = ''Unknown''" by blast
qed

section \<open>Properties of the report writer\<close>

lemma carrier_map_snoc:
  "carrier_map (cs @ [c]) = (carrier_map cs)(Carrier.name c \<mapsto> c)"
  by (simp add: carrier_map_def)

lemma carrier_map_last:
  "carrier_map cs n =
     (if filter (\<lambda>c. Carrier.name c = n) cs = [] then None
      else Some (last (filter (\<lambda>c. Carrier.name c = n) cs)))"
proof (induction cs rule: rev_induct)
  case Nil
  then show ?case by (simp add: carrier_map_def)
next
  case (snoc c cs)
  then show ?case by (simp add: carrier_map_snoc)
qed

lemma carrier_map_drop_earlier:
  assumes "\<exists>c' \<in> set cs2. Carrier.name c' = Carrier.name c"
  shows "carrier_map (cs1 @ c # cs2) = carrier_map (cs1 @ cs2)"
proof
  fix n
  show "carrier_map (cs1 @ c # cs2) n = carrier_map (cs1 @ cs2) n"
  proof (cases "n = Carrier.name c")
    case True
    from assms have "filter (\<lambda>c'. Carrier.name c' = n) cs2 \<noteq> []"
      using True by (auto simp: filter_empty_conv)
    then show ?thesis by (simp add: carrier_map_last True)
  next
    case False
    then show ?thesis by (simp add: carrier_map_last)
  qed
qed

lemma carrier_map_in_set:
  assumes "carrier_map cs n = Some c"
  shows "c \<in> set cs \<and> Carrier.name c = n"
proof -
  let ?same = "filter (\<lambda>c. Carrier.name c = n) cs"
  from assms have ne: "?same \<noteq> []" and l: "c = last ?same"
    by (auto simp: carrier_map_last split: if_splits)
  from ne have "last ?same \<in> set ?same" by (rule last_in_set)
  then show ?thesis using l by auto
qed

lemma length_phone_rows:
  "length (phone_rows p) =
     (\<Sum>n \<leftarrow> carrier_order. case carrier_map (carriers p) n of
        None \<Rightarrow> 1 | Some c \<Rightarrow> length (offers c))"
  by (simp add: phone_rows_def Let_def carrier_rows_def length_concat comp_def
      option.case_distrib [of length] cong: option.case_cong)

lemma write_to_csv_file:
  "write_to_csv phones path fs path = Some (headers # concat (map phone_rows phones))"
  by (simp add: write_to_csv_def)

lemma carrier_map_last_with_name: "carrier_map cs n = last_with_name cs n"
  by (simp add: carrier_map_last last_with_name_def Let_def)

lemma last_with_name_in_set:
  "last_with_name cs n = Some c \<Longrightarrow> c \<in> set cs \<and> Carrier.name c = n"
  using carrier_map_in_set [of cs n c] by (simp add: carrier_map_last_with_name)

lemma carrier_rows_last_with_name:
  "carrier_rows p (carrier_map (carriers p)) n =
     (case last_with_name (carriers p) n of
        None \<Rightarrow> [placeholder_row p n]
      | Some c \<Rightarrow> map (offer_row p c) (offers c))"
  by (simp add: carrier_rows_def carrier_map_last_with_name split: option.splits)

lemma carrier_rows_cells:
  assumes "row \<in> set (carrier_rows p (carrier_map (carriers p)) m)"
  shows "row ! 0 = JStr (Phone.name p) \<and> row ! 1 = JStr m \<and> length row = 11"
proof (cases "last_with_name (carriers p) m")
  case None
  with assms show ?thesis
    by (simp add: carrier_rows_last_with_name placeholder_row_def)
next
  case (Some c)
  then have "Carrier.name c = m" using last_with_name_in_set by blast
  with assms Some show ?thesis
    by (auto simp: carrier_rows_last_with_name offer_row_def)
qed

lemma concat_only:
  "distinct xs \<Longrightarrow> n \<in> set xs \<Longrightarrow> concat (map (\<lambda>m. if m = n then g else []) xs) = g"
proof (induction xs)
  case Nil
  then show ?case by simp
next
  case (Cons x xs)
  show ?case
  proof (cases "x = n")
    case True
    with Cons.prems have "n \<notin> set xs" by simp
    then have "concat (map (\<lambda>m. if m = n then g else []) xs) = []"
      by (induction xs) auto
    with True show ?thesis by simp
  next
    case False
    with Cons show ?thesis by simp
  qed
qed

text \<open>The rows of a phone whose carrier cell is a canonical name are the group of that name.\<close>

lemma filter_phone_rows:
  assumes "n \<in> set carrier_order"
  shows "filter (\<lambda>row. row ! 1 = JStr n) (phone_rows p) =
           carrier_rows p (carrier_map (carriers p)) n"
proof -
  let ?g = "carrier_rows p (carrier_map (carriers p))"
  have one: "filter (\<lambda>row. row ! 1 = JStr n) (?g m) = (if m = n then ?g n else [])" for m
  proof (cases "m = n")
    case True
    have "\<forall>row \<in> set (?g n). row ! 1 = JStr n" using carrier_rows_cells by blast
    then have "filter (\<lambda>row. row ! 1 = JStr n) (?g n) = ?g n" by (simp add: filter_id_conv)
    with True show ?thesis by simp
  next
    case False
    have "\<forall>row \<in> set (?g m). row ! 1 = JStr m" using carrier_rows_cells by blast
    with False have "\<forall>row \<in> set (?g m). row ! 1 \<noteq> JStr n" by auto
    then have "filter (\<lambda>row. row ! 1 = JStr n) (?g m) = []" by (simp add: filter_empty_conv)
    with False show ?thesis by simp
  qed
  have "filter (\<lambda>row. row ! 1 = JStr n) (phone_rows p) =
          concat (map (\<lambda>m. filter (\<lambda>row. row ! 1 = JStr n) (?g m)) carrier_order)"
    unfolding phone_rows_def Let_def filter_concat map_map comp_def ..
  also have "\<dots> = concat (map (\<lambda>m. if m = n then ?g n else []) carrier_order)"
    by (simp only: one)
  also have "\<dots> = ?g n"
    using assms by (intro concat_only) (simp_all add: carrier_order_def)
  finally show ?thesis .
qed

lemma map_concat_singletons:
  "\<forall>x \<in> set xs. \<exists>r. f x = [r] \<and> h r = k x \<Longrightarrow> map h (concat (map f xs)) = map k xs"
  by (induction xs) auto

lemma length_phone_rows_last:
  "length (phone_rows p) =
     (\<Sum>n \<leftarrow> carrier_order. case last_with_name (carriers p) n of
        None \<Rightarrow> 1 | Some c \<Rightarrow> length (offers c))"
  by (simp add: length_phone_rows carrier_map_last_with_name)

lemma seven_rows_of_phone:
  assumes one: "\<forall>n \<in> set carrier_order. \<forall>c. last_with_name (carriers p) n = Some c
                  \<longrightarrow> length (offers c) = 1"
  shows "length (phone_rows p) = 7 \<and> map (\<lambda>row. row ! 1) (phone_rows p) = map JStr carrier_order"
proof -
  have group: "\<exists>r. carrier_rows p (carrier_map (carriers p)) n = [r] \<and> r ! 1 = JStr n"
    if n: "n \<in> set carrier_order" for n
  proof (cases "last_with_name (carriers p) n")
    case None
    then show ?thesis by (simp add: carrier_rows_last_with_name placeholder_row_def)
  next
    case (Some c)
    then have c: "Carrier.name c = n" using last_with_name_in_set by blast
    from one n Some have "length (offers c) = 1" by blast
    then obtain x where "offers c = [x]"
      by (cases "offers c") auto
    with Some c show ?thesis by (simp add: carrier_rows_last_with_name offer_row_def)
  qed
  then have cells: "map (\<lambda>row. row ! 1) (phone_rows p) = map JStr carrier_order"
    unfolding phone_rows_def Let_def by (intro map_concat_singletons) blast
  then have "length (map (\<lambda>row. row ! 1) (phone_rows p)) = length (map JStr carrier_order)"
    by simp
  then have "length (phone_rows p) = 7" by (simp add: carrier_order_def)
  with cells show ?thesis by simp
qed

text \<open>
  Claim C1, as stated, fails: a pricing fetch that meets a status other than 200
  returns a Carrier with no offer, and the writer's inner loop then writes no row for
  that carrier.  A document with one phone and one Fido URL, fetched with status 404,
  gives a file of the header and 6 data rows.
\<close>

theorem seven_rows_counterexample:
  "fst (scrape (\<lambda>k u. Response 404 None)
          [(''iPhone_15'', [Some ''https://www.bestbuy.ca/en-ca/product/fido-iphone-15/17094220''])]
          \<lparr>calls = 0, trace = []\<rparr>)
     = Inr [\<lparr>Phone.name = ''iPhone 15'', carriers =
              [\<lparr>Carrier.name = ''Fido'',
                link = ''https://www.bestbuy.ca/en-ca/product/fido-iphone-15/17094220'',
                offers = []\<rparr>]\<rparr>]
   \<and> map_option length
        (write_to_csv
           [\<lparr>Phone.name = ''iPhone 15'', carriers =
              [\<lparr>Carrier.name = ''Fido'',
                link = ''https://www.bestbuy.ca/en-ca/product/fido-iphone-15/17094220'',
                offers = []\<rparr>]\<rparr>]
           ''bestbuy_20240101_mobiles.csv'' Map.empty ''bestbuy_20240101_mobiles.csv'')
     = Some (1 + 6)"
  by code_simp

text \<open>
  Claim C1, amended: the file written by the report writer is the header followed by
  one group of data rows per phone, in the order of the phones.  The number of rows of
  a phone's group is the sum, over the seven canonical names, of 1 for a name no
  Carrier of the phone has and of the number of offers of the last Carrier of the
  phone that has the name.  So a phone in which the last Carrier of every canonical
  name it has holds exactly one Offer gets exactly 7 data rows, one per carrier in the
  canonical order, however many carrier URLs it has; and when this holds of every
  phone the file has 7 data rows for each phone.
\<close>

theorem seven_rows_per_phone:
  "write_to_csv phones path fs path = Some (headers # concat (map phone_rows phones))
   \<and> (\<forall>p \<in> set phones.
         length (phone_rows p) =
           (\<Sum>n \<leftarrow> carrier_order. case last_with_name (carriers p) n of
              None \<Rightarrow> 1 | Some c \<Rightarrow> length (offers c))
         \<and> ((\<forall>n \<in> set carrier_order. \<forall>c. last_with_name (carriers p) n = Some c
                \<longrightarrow> length (offers c) = 1)
              \<longrightarrow> length (phone_rows p) = 7
                  \<and> map (\<lambda>row. row ! 1) (phone_rows p) = map JStr carrier_order
                  \<and> (\<forall>row \<in> set (phone_rows p). row ! 0 = JStr (Phone.name p))))
   \<and> ((\<forall>p \<in> set phones. \<forall>n \<in> set carrier_order. \<forall>c.
          last_with_name (carriers p) n = Some c \<longrightarrow> length (offers c) = 1)
        \<longrightarrow> map_option length (write_to_csv phones path fs path) = Some (1 + 7 * length phones))"
proof (intro conjI ballI impI)
  show "write_to_csv phones path fs path = Some (headers # concat (map phone_rows phones))"
    by (rule write_to_csv_file)
next
  fix p :: Phone
  show "length (phone_rows p) =
           (\<Sum>n \<leftarrow> carrier_order. case last_with_name (carriers p) n of
              None \<Rightarrow> 1 | Some c \<Rightarrow> length (offers c))"
    by (rule length_phone_rows_last)
next
  fix p :: Phone
  assume "\<forall>n \<in> set carrier_order. \<forall>c. last_with_name (carriers p) n = Some c
            \<longrightarrow> length (offers c) = 1"
  then show "length (phone_rows p) = 7"
    and "map (\<lambda>row. row ! 1) (phone_rows p) = map JStr carrier_order"
    using seven_rows_of_phone by blast+
next
  fix p :: Phone and row
  assume "row \<in> set (phone_rows p)"
  then obtain m where "row \<in> set (carrier_rows p (carrier_map (carriers p)) m)"
    by (auto simp: phone_rows_def Let_def)
  then show "row ! 0 = JStr (Phone.name p)" using carrier_rows_cells by blast
next
  assume all: "\<forall>p \<in> set phones. \<forall>n \<in> set carrier_order. \<forall>c.
          last_with_name (carriers p) n = Some c \<longrightarrow> length (offers c) = 1"
  have "\<forall>p \<in> set phones. length (phone_rows p) = 7"
    using all seven_rows_of_phone by blast
  then have "map (length \<circ> phone_rows) phones = replicate (length phones) 7"
    by (induction phones) auto
  then have "length (concat (map phone_rows phones)) = 7 * length phones"
    by (simp add: length_concat sum_list_replicate)
  then show "map_option length (write_to_csv phones path fs path) = Some (1 + 7 * length phones)"
    by (simp add: write_to_csv_file)
qed

theorem seven_rows_per_phone_witness:
  "map_option length
     (write_to_csv
        [\<lparr>Phone.name = ''iPhone 15'', carriers =
           [\<lparr>Carrier.name = ''Fido'', link = ''https://www.bestbuy.ca/fido/1'', offers = []\<rparr>,
            \<lparr>Carrier.name = ''Fido'', link = ''https://www.bestbuy.ca/fido/2'',
              offers = [sentinel_offer]\<rparr>,
            \<lparr>Carrier.name = ''Unknown'', link = ''https://www.bestbuy.ca/3'', offers = []\<rparr>]\<rparr>]
        ''bestbuy_20240101_mobiles.csv'' Map.empty ''bestbuy_20240101_mobiles.csv'')
   = Some (1 + 7 * 1)"
proof -
  let ?p = "\<lparr>Phone.name = ''iPhone 15'', carriers =
           [\<lparr>Carrier.name = ''Fido'', link = ''https://www.bestbuy.ca/fido/1'', offers = []\<rparr>,
            \<lparr>Carrier.name = ''Fido'', link = ''https://www.bestbuy.ca/fido/2'',
              offers = [sentinel_offer]\<rparr>,
            \<lparr>Carrier.name = ''Unknown'', link = ''https://www.bestbuy.ca/3'', offers = []\<rparr>]\<rparr>"
  have "\<forall>p \<in> set [?p]. \<forall>n \<in> set carrier_order. \<forall>c.
          last_with_name (carriers p) n = Some c \<longrightarrow> length (offers c) = 1"
    by (simp add: carrier_order_def last_with_name_def)
  with seven_rows_per_phone [of "[?p]" "''bestbuy_20240101_mobiles.csv''" Map.empty]
  show ?thesis by simp
qed

text \<open>
  Claim C7, as stated, fails on the link column: the placeholder row holds nine
  \<^verbatim>\<open>'--'\<close> cells after the two names, one for each of the eight value columns and one
  for the link column, so the eleventh cell of the written row is \<^verbatim>\<open>'--'\<close>, not blank.
\<close>

theorem placeholder_row_link_counterexample:
  "write_to_csv [\<lparr>Phone.name = ''iPhone 15'', carriers = []\<rparr>]
     ''bestbuy_20240101_mobiles.csv'' Map.empty ''bestbuy_20240101_mobiles.csv''
   = Some
      [headers,
       [JStr ''iPhone 15'', JStr ''Fido'', JStr ''--'', JStr ''--'', JStr ''--'', JStr ''--'',
        JStr ''--'', JStr ''--'', JStr ''--'', JStr ''--'', JStr ''--''],
       [JStr ''iPhone 15'', JStr ''Rogers'', JStr ''--'', JStr ''--'', JStr ''--'', JStr ''--'',
        JStr ''--'', JStr ''--'', JStr ''--'', JStr ''--'', JStr ''--''],
       [JStr ''iPhone 15'', JStr ''Virgin Plus'', JStr ''--'', JStr ''--'', JStr ''--'', JStr ''--'',
        JStr ''--'', JStr ''--'', JStr ''--'', JStr ''--'', JStr ''--''],
       [JStr ''iPhone 15'', JStr ''Bell'', JStr ''--'', JStr ''--'', JStr ''--'', JStr ''--'',
        JStr ''--'', JStr ''--'', JStr ''--'', JStr ''--'', JStr ''--''],
       [JStr ''iPhone 15'', JStr ''Koodo'', JStr ''--'', JStr ''--'', JStr ''--'', JStr ''--'',
        JStr ''--'', JStr ''--'', JStr ''--'', JStr ''--'', JStr ''--''],
       [JStr ''iPhone 15'', JStr ''Telus'', JStr ''--'', JStr ''--'', JStr ''--'', JStr ''--'',
        JStr ''--'', JStr ''--'', JStr ''--'', JStr ''--'', JStr ''--''],
       [JStr ''iPhone 15'', JStr ''Freedom Mobile'', JStr ''--'', JStr ''--'', JStr ''--'',
        JStr ''--'', JStr ''--'', JStr ''--'', JStr ''--'', JStr ''--'', JStr ''--'']]
   \<and> headers ! 10 = JStr ''Link''"
  by code_simp

text \<open>
  Claim C7, amended: the file written is the header followed by the phones' groups of
  rows, and in the group of a phone that has no Carrier of a canonical name there is
  exactly one row with that name in the carrier column: the phone's name, the
  carrier's name, and \<^verbatim>\<open>'--'\<close> in each of the nine other columns, the link column among
  them.
\<close>

theorem placeholder_row_for_missing_carrier:
  assumes "p \<in> set phones"
    and "n \<in> set carrier_order"
    and "\<forall>c \<in> set (carriers p). Carrier.name c \<noteq> n"
  shows "write_to_csv phones path fs path = Some (headers # concat (map phone_rows phones))
         \<and> filter (\<lambda>row. row ! 1 = JStr n) (phone_rows p) =
             [[JStr (Phone.name p), JStr n,
               JStr ''--'', JStr ''--'', JStr ''--'', JStr ''--'', JStr ''--'', JStr ''--'',
               JStr ''--'', JStr ''--'', JStr ''--'']]"
proof -
  from assms(3) have "last_with_name (carriers p) n = None"
    by (simp add: last_with_name_def filter_empty_conv)
  then have "carrier_rows p (carrier_map (carriers p)) n = [placeholder_row p n]"
    by (simp add: carrier_rows_last_with_name)
  with filter_phone_rows [OF assms(2), of p] show ?thesis
    by (simp add: write_to_csv_file placeholder_row_def)
qed

theorem placeholder_row_for_missing_carrier_witness:
  "filter (\<lambda>row. row ! 1 = JStr ''Rogers'')
     (phone_rows \<lparr>Phone.name = ''iPhone 15'', carriers =
        [\<lparr>Carrier.name = ''Fido'', link = ''https://www.bestbuy.ca/fido/1'', offers = []\<rparr>]\<rparr>)
   = [[JStr ''iPhone 15'', JStr ''Rogers'',
       JStr ''--'', JStr ''--'', JStr ''--'', JStr ''--'', JStr ''--'', JStr ''--'',
       JStr ''--'', JStr ''--'', JStr ''--'']]"
proof -
  let ?p = "\<lparr>Phone.name = ''iPhone 15'', carriers =
      [\<lparr>Carrier.name = ''Fido'', link = ''https://www.bestbuy.ca/fido/1'', offers = []\<rparr>]\<rparr>"
  have a: "?p \<in> set [?p]" by simp
  have b: "''Rogers'' \<in> set carrier_order" by (simp add: carrier_order_def)
  have c: "\<forall>c \<in> set (carriers ?p). Carrier.name c \<noteq> ''Rogers''" by simp
  from placeholder_row_for_missing_carrier [OF a b c] show ?thesis by simp
qed

text \<open>
  Claim C10: the name-keyed map keeps, for each name, the last Carrier of the phone's
  list with that name.  The file written is the header followed by the phones' groups
  of rows; in a phone's group the rows of a canonical name are the offer rows of that
  last record alone, in the order of its offers (or the one placeholder row when no
  record has the name); and an earlier record with the same name as a later one
  changes nothing in the file.
\<close>

theorem last_record_of_a_name_wins:
  "carrier_map cs n = last_with_name cs n
   \<and> write_to_csv phones path fs path = Some (headers # concat (map phone_rows phones))
   \<and> (\<forall>q \<in> set phones. \<forall>m \<in> set carrier_order.
         filter (\<lambda>row. row ! 1 = JStr m) (phone_rows q) =
           (case last_with_name (carriers q) m of
              None \<Rightarrow> [placeholder_row q m]
            | Some d \<Rightarrow> map (offer_row q d) (offers d)))
   \<and> ((\<exists>c' \<in> set later. Carrier.name c' = Carrier.name c)
        \<longrightarrow> write_to_csv (phones_before @ (p :: Phone)\<lparr>carriers := earlier @ c # later\<rparr> # phones_after) path fs
            = write_to_csv (phones_before @ p\<lparr>carriers := earlier @ later\<rparr> # phones_after) path fs)"
proof (intro conjI ballI impI)
  show "carrier_map cs n = last_with_name cs n" by (rule carrier_map_last_with_name)
  show "write_to_csv phones path fs path = Some (headers # concat (map phone_rows phones))"
    by (rule write_to_csv_file)
next
  fix q :: Phone and m
  assume "m \<in> set carrier_order"
  then show "filter (\<lambda>row. row ! 1 = JStr m) (phone_rows q) =
           (case last_with_name (carriers q) m of
              None \<Rightarrow> [placeholder_row q m]
            | Some d \<Rightarrow> map (offer_row q d) (offers d))"
    by (simp only: filter_phone_rows carrier_rows_last_with_name)
next
  assume "\<exists>c' \<in> set later. Carrier.name c' = Carrier.name c"
  then have "carrier_map (earlier @ c # later) = carrier_map (earlier @ later)"
    by (rule carrier_map_drop_earlier)
  moreover have "carrier_rows (p\<lparr>carriers := cs\<rparr>) = carrier_rows p" for cs
    by (intro ext) (simp add: carrier_rows_def offer_row_def placeholder_row_def split: option.splits)
  ultimately have
    "phone_rows (p\<lparr>carriers := earlier @ c # later\<rparr>) = phone_rows (p\<lparr>carriers := earlier @ later\<rparr>)"
    by (simp add: phone_rows_def Let_def)
  then show "write_to_csv (phones_before @ p\<lparr>carriers := earlier @ c # later\<rparr> # phones_after) path fs
            = write_to_csv (phones_before @ p\<lparr>carriers := earlier @ later\<rparr> # phones_after) path fs"
    by (simp add: write_to_csv_def)
qed

theorem last_record_of_a_name_wins_witness:
  "write_to_csv
     [\<lparr>Phone.name = ''iPhone 15'', carriers =
        [\<lparr>Carrier.name = ''Fido'', link = ''https://www.bestbuy.ca/fido/1'',
          offers = [sentinel_offer]\<rparr>,
         \<lparr>Carrier.name = ''Fido'', link = ''https://www.bestbuy.ca/fido/2'',
          offers = [sentinel_offer\<lparr>gift_card := JInt 50\<rparr>]\<rparr>]\<rparr>]
     ''bestbuy_20240101_mobiles.csv'' Map.empty ''bestbuy_20240101_mobiles.csv''
   = Some
      [headers,
       [JStr ''iPhone 15'', JStr ''Fido'', JStr ''N/A'', JInt 50, JStr ''N/A'', JStr ''N/A'',
        JStr ''N/A'', JStr ''N/A'', JStr ''N/A'', JStr ''N/A'', JStr ''https://www.bestbuy.ca/fido/2''],
       [JStr ''iPhone 15'', JStr ''Rogers'', JStr ''--'', JStr ''--'', JStr ''--'', JStr ''--'',
        JStr ''--'', JStr ''--'', JStr ''--'', JStr ''--'', JStr ''--''],
       [JStr ''iPhone 15'', JStr ''Virgin Plus'', JStr ''--'', JStr ''--'', JStr ''--'', JStr ''--'',
        JStr ''--'', JStr ''--'', JStr ''--'', JStr ''--'', JStr ''--''],
       [JStr ''iPhone 15'', JStr ''Bell'', JStr ''--'', JStr ''--'', JStr ''--'', JStr ''--'',
        JStr ''--'', JStr ''--'', JStr ''--'', JStr ''--'', JStr ''--''],
       [JStr ''iPhone 15'', JStr ''Koodo'', JStr ''--'', JStr ''--'', JStr ''--'', JStr ''--'',
        JStr ''--'', JStr ''--'', JStr ''--'', JStr ''--'', JStr ''--''],
       [JStr ''iPhone 15'', JStr ''Telus'', JStr ''--'', JStr ''--'', JStr ''--'', JStr ''--'',
        JStr ''--'', JStr ''--'', JStr ''--'', JStr ''--'', JStr ''--''],
       [JStr ''iPhone 15'', JStr ''Freedom Mobile'', JStr ''--'', JStr ''--'', JStr ''--'',
        JStr ''--'', JStr ''--'', JStr ''--'', JStr ''--'', JStr ''--'', JStr ''--'']]"
proof -
  let ?c1 = "\<lparr>Carrier.name = ''Fido'', link = ''https://www.bestbuy.ca/fido/1'',
          offers = [sentinel_offer]\<rparr>"
  let ?c2 = "\<lparr>Carrier.name = ''Fido'', link = ''https://www.bestbuy.ca/fido/2'',
          offers = [sentinel_offer\<lparr>gift_card := JInt 50\<rparr>]\<rparr>"
  let ?p = "\<lparr>Phone.name = ''iPhone 15'', carriers = []\<rparr>"
  let ?path = "''bestbuy_20240101_mobiles.csv''"
  have "\<exists>c' \<in> set [?c2]. Carrier.name c' = Carrier.name ?c1" by simp
  with last_record_of_a_name_wins
    [where phones_before = "[]" and phones_after = "[]" and p = ?p and earlier = "[]" and c = ?c1 and later = "[?c2]"
       and path = ?path and fs = Map.empty]
  have "write_to_csv ([] @ ?p\<lparr>carriers := [] @ ?c1 # [?c2]\<rparr> # []) ?path Map.empty
        = write_to_csv ([] @ ?p\<lparr>carriers := [] @ [?c2]\<rparr> # []) ?path Map.empty"
    by blast
  then have "write_to_csv [\<lparr>Phone.name = ''iPhone 15'', carriers = [?c1, ?c2]\<rparr>] ?path Map.empty ?path
        = write_to_csv [\<lparr>Phone.name = ''iPhone 15'', carriers = [?c2]\<rparr>] ?path Map.empty ?path"
    by simp
  also have "\<dots> = Some
      [headers,
       [JStr ''iPhone 15'', JStr ''Fido'', JStr ''N/A'', JInt 50, JStr ''N/A'', JStr ''N/A'',
        JStr ''N/A'', JStr ''N/A'', JStr ''N/A'', JStr ''N/A'', JStr ''https://www.bestbuy.ca/fido/2''],
       [JStr ''iPhone 15'', JStr ''Rogers'', JStr ''--'', JStr ''--'', JStr ''--'', JStr ''--'',
        JStr ''--'', JStr ''--'', JStr ''--'', JStr ''--'', JStr ''--''],
       [JStr ''iPhone 15'', JStr ''Virgin Plus'', JStr ''--'', JStr ''--'', JStr ''--'', JStr ''--'',
        JStr ''--'', JStr ''--'', JStr ''--'', JStr ''--'', JStr ''--''],
       [JStr ''iPhone 15'', JStr ''Bell'', JStr ''--'', JStr ''--'', JStr ''--'', JStr ''--'',
        JStr ''--'', JStr ''--'', JStr ''--'', JStr ''--'', JStr ''--''],
       [JStr ''iPhone 15'', JStr ''Koodo'', JStr ''--'', JStr ''--'', JStr ''--'', JStr ''--'',
        JStr ''--'', JStr ''--'', JStr ''--'', JStr ''--'', JStr ''--''],
       [JStr ''iPhone 15'', JStr ''Telus'', JStr ''--'', JStr ''--'', JStr ''--'', JStr ''--'',
        JStr ''--'', JStr ''--'', JStr ''--'', JStr ''--'', JStr ''--''],
       [JStr ''iPhone 15'', JStr ''Freedom Mobile'', JStr ''--'', JStr ''--'', JStr ''--'',
        JStr ''--'', JStr ''--'', JStr ''--'', JStr ''--'', JStr ''--'', JStr ''--'']]"
    by code_simp
  finally show ?thesis .
qed

section \<open>Properties of the pricing fetcher\<close>

subsection \<open>One attempt\<close>

lemma try_block_raises:
  assumes "net (calls w) u = Raises"
  shows "try_block net u cn lnk pn L w =
           (Raised TransportError, L, w\<lparr>calls := Suc (calls w), trace := trace w @ [Get u]\<rparr>)"
  using assms by (simp add: try_block_def session_get_def)

lemma try_block_not_200:
  assumes "net (calls w) u = Response status_code body" and "status_code \<noteq> 200"
  shows "try_block net u cn lnk pn L w =
           (Returns \<lparr>Carrier.name = cn, link = lnk, offers = []\<rparr>, L,
            w\<lparr>calls := Suc (calls w), trace := trace w @ [Get u, Print (FailedToLoad pn cn)]\<rparr>)"
  using assms by (simp add: try_block_def session_get_def print_def)

lemma try_block_no_json:
  assumes "net (calls w) u = Response 200 None"
  shows "try_block net u cn lnk pn L w =
           (Raised JSONDecodeError, L, w\<lparr>calls := Suc (calls w), trace := trace w @ [Get u]\<rparr>)"
  using assms by (simp add: try_block_def session_get_def)

lemma try_block_offer:
  assumes "net (calls w) u = Response 200 (Some response_data)"
    and "build_offer response_data L = (L', Inr offer)"
  shows "try_block net u cn lnk pn L w =
           (Returns \<lparr>Carrier.name = cn, link = lnk, offers = [offer]\<rparr>, L',
            w\<lparr>calls := Suc (calls w), trace := trace w @ [Get u]\<rparr>)"
  using assms by (simp add: try_block_def session_get_def)

lemma try_block_no_offer:
  assumes "net (calls w) u = Response 200 (Some response_data)"
    and "build_offer response_data L = (L', Inl e)"
  shows "try_block net u cn lnk pn L w =
           (Raised e, L', w\<lparr>calls := Suc (calls w), trace := trace w @ [Get u]\<rparr>)"
  using assms by (simp add: try_block_def session_get_def)

text \<open>What an attempt that returns has returned, and the last event of its trace.\<close>

lemma try_block_returns:
  assumes "try_block net u cn lnk pn L w = (Returns c, L', w')"
  shows "Carrier.name c = cn \<and> link c = lnk
         \<and> ((offers c = [] \<and> last (trace w') = Print (FailedToLoad pn cn))
            \<or> ((\<exists>x. offers c = [x]) \<and> last (trace w') = Get u))"
  using assms
  by (auto simp: try_block_def session_get_def print_def
      split: reply.splits if_splits option.splits prod.splits sum.splits)

subsection \<open>The loop\<close>

lemma retry_loop_returns:
  assumes "attempt \<le> max_retries"
    and "try_block net u cn lnk pn L w = (Returns c, L', w')"
  shows "retry_loop net u cn lnk pn attempt L w = (c, w')"
  using assms by (simp add: retry_loop.simps [of net u cn lnk pn attempt L w])

lemma retry_loop_raised:
  assumes "attempt \<le> max_retries"
    and "try_block net u cn lnk pn L w = (Raised e, L', w')"
  shows "retry_loop net u cn lnk pn attempt L w =
           retry_loop net u cn lnk pn (attempt + 1) L'
             (if attempt < max_retries then sleep 2 (print (Retry attempt pn cn e) w') else w')"
  using assms by (simp add: retry_loop.simps [of net u cn lnk pn attempt L w])

lemma retry_loop_exhausted:
  assumes "max_retries < attempt"
  shows "retry_loop net u cn lnk pn attempt L w =
           (\<lparr>Carrier.name = cn, link = lnk, offers = [sentinel_offer]\<rparr>,
            print (FailedAfter max_retries pn cn) w)"
  using assms by (simp add: retry_loop.simps [of net u cn lnk pn attempt L w])

lemma scrape_carrier_data_loop:
  "scrape_carrier_data net url lnk pn w =
     retry_loop net (request_url url) (extract_carrier_name url) lnk pn 1
       \<lparr>total_price_var = None, price_after_gc_var = None\<rparr>
       (w\<lparr>trace := trace w @ [Print (Started pn (extract_carrier_name url))]\<rparr>)"
  by (simp add: scrape_carrier_data_def request_url_def print_def Let_def)

text \<open>
  Claim C5: when the first response of a pricing fetch has a status outside 200..299
  (the code tests for any status other than 200), the fetcher returns at once a Carrier
  with no offer: one request, one line of failure, no retry and no sleep.
\<close>

theorem non_2xx_gives_no_offer:
  assumes "net (calls w) (request_url url) = Response status_code body"
    and "\<not> (200 \<le> status_code \<and> status_code \<le> 299)"
  shows "scrape_carrier_data net url lnk phone_name w =
           (\<lparr>Carrier.name = extract_carrier_name url, link = lnk, offers = []\<rparr>,
            w\<lparr>calls := Suc (calls w),
              trace := trace w @
                [Print (Started phone_name (extract_carrier_name url)),
                 Get (request_url url),
                 Print (FailedToLoad phone_name (extract_carrier_name url))]\<rparr>)"
proof -
  let ?w1 = "w\<lparr>trace := trace w @ [Print (Started phone_name (extract_carrier_name url))]\<rparr>"
  from assms have "net (calls ?w1) (request_url url) = Response status_code body"
    and "status_code \<noteq> 200" by auto
  then have "try_block net (request_url url) (extract_carrier_name url) lnk phone_name
               \<lparr>total_price_var = None, price_after_gc_var = None\<rparr> ?w1 =
             (Returns \<lparr>Carrier.name = extract_carrier_name url, link = lnk, offers = []\<rparr>,
              \<lparr>total_price_var = None, price_after_gc_var = None\<rparr>,
              ?w1\<lparr>calls := Suc (calls ?w1),
                   trace := trace ?w1 @ [Get (request_url url),
                     Print (FailedToLoad phone_name (extract_carrier_name url))]\<rparr>)"
    by (rule try_block_not_200)
  then show ?thesis
    by (simp add: scrape_carrier_data_loop retry_loop_returns max_retries_def)
qed

theorem non_2xx_gives_no_offer_witness:
  "scrape_carrier_data (\<lambda>k u. Response 404 None)
     ''https://www.bestbuy.ca/en-ca/product/fido-iphone-15/17094220''
     ''https://www.bestbuy.ca/en-ca/product/fido-iphone-15/17094220'' ''iPhone 15''
     \<lparr>calls = 0, trace = []\<rparr> =
   (\<lparr>Carrier.name = ''Fido'',
      link = ''https://www.bestbuy.ca/en-ca/product/fido-iphone-15/17094220'', offers = []\<rparr>,
    \<lparr>calls = 1,
      trace = [Print (Started ''iPhone 15'' ''Fido''),
               Get (api_url ''17094220''),
               Print (FailedToLoad ''iPhone 15'' ''Fido'')]\<rparr>)"
proof -
  let ?u = "''https://www.bestbuy.ca/en-ca/product/fido-iphone-15/17094220''"
  let ?w = "\<lparr>calls = 0, trace = []\<rparr>"
  have n: "extract_carrier_name ?u = ''Fido''" by code_simp
  have r: "request_url ?u = api_url ''17094220''" by code_simp
  have "\<not> (200 \<le> (404::int) \<and> (404::int) \<le> 299)" by simp
  with non_2xx_gives_no_offer [where net = "\<lambda>k u. Response 404 None" and w = ?w and url = ?u
      and lnk = ?u and phone_name = "''iPhone 15''" and status_code = 404 and body = None]
  show ?thesis by (simp add: n r)
qed

text \<open>
  Claim C4: when all three requests of a pricing fetch raise, the fetcher returns a
  Carrier with exactly one Offer, every field at its default (\<^verbatim>\<open>'N/A'\<close>, gift card
  \<^verbatim>\<open>'0'\<close>); it has slept 2 seconds after the first and after the second failure and
  not after the third, and it returns normally.
\<close>

theorem three_failures_give_sentinel_offer:
  assumes "\<forall>i < 3. net (calls w + i) (request_url url) = Raises"
  shows "scrape_carrier_data net url lnk phone_name w =
           (\<lparr>Carrier.name = extract_carrier_name url, link = lnk,
              offers = [\<lparr>price_after_gc = JStr ''N/A'', gift_card = JStr ''0'',
                         total_price = JStr ''N/A'', monthly_price = JStr ''N/A'',
                         down_payment = JStr ''N/A'', bib_premium = JStr ''N/A'',
                         bib_monthly = JStr ''N/A'', down_return = JStr ''N/A''\<rparr>]\<rparr>,
            w\<lparr>calls := calls w + 3,
              trace := trace w @
                [Print (Started phone_name (extract_carrier_name url)),
                 Get (request_url url),
                 Print (Retry 1 phone_name (extract_carrier_name url) TransportError),
                 Sleep 2,
                 Get (request_url url),
                 Print (Retry 2 phone_name (extract_carrier_name url) TransportError),
                 Sleep 2,
                 Get (request_url url),
                 Print (FailedAfter 3 phone_name (extract_carrier_name url))]\<rparr>)"
proof -
  from assms have r: "net (calls w) (request_url url) = Raises"
    "net (Suc (calls w)) (request_url url) = Raises"
    "net (Suc (Suc (calls w))) (request_url url) = Raises"
    using assms [rule_format, of 0] assms [rule_format, of 1] assms [rule_format, of 2]
    by simp_all
  show ?thesis
    by (simp add: scrape_carrier_data_loop retry_loop_raised try_block_raises
        retry_loop_exhausted r max_retries_def sleep_def print_def sentinel_offer_def)
qed

theorem three_failures_give_sentinel_offer_witness:
  "scrape_carrier_data (\<lambda>k u. Raises)
     ''https://www.bestbuy.ca/en-ca/product/fido-iphone-15/17094220''
     ''https://www.bestbuy.ca/en-ca/product/fido-iphone-15/17094220'' ''iPhone 15''
     \<lparr>calls = 0, trace = []\<rparr> =
   (\<lparr>Carrier.name = ''Fido'',
      link = ''https://www.bestbuy.ca/en-ca/product/fido-iphone-15/17094220'',
      offers = [\<lparr>price_after_gc = JStr ''N/A'', gift_card = JStr ''0'',
                 total_price = JStr ''N/A'', monthly_price = JStr ''N/A'',
                 down_payment = JStr ''N/A'', bib_premium = JStr ''N/A'',
                 bib_monthly = JStr ''N/A'', down_return = JStr ''N/A''\<rparr>]\<rparr>,
    \<lparr>calls = 3,
      trace = [Print (Started ''iPhone 15'' ''Fido''),
               Get (api_url ''17094220''),
               Print (Retry 1 ''iPhone 15'' ''Fido'' TransportError),
               Sleep 2,
               Get (api_url ''17094220''),
               Print (Retry 2 ''iPhone 15'' ''Fido'' TransportError),
               Sleep 2,
               Get (api_url ''17094220''),
               Print (FailedAfter 3 ''iPhone 15'' ''Fido'')]\<rparr>)"
proof -
  let ?u = "''https://www.bestbuy.ca/en-ca/product/fido-iphone-15/17094220''"
  let ?w = "\<lparr>calls = 0, trace = []\<rparr>"
  have n: "extract_carrier_name ?u = ''Fido''" by code_simp
  have r: "request_url ?u = api_url ''17094220''" by code_simp
  have "\<forall>i < 3. (\<lambda>k u. Raises) (calls ?w + i) (request_url ?u) = Raises" by simp
  with three_failures_give_sentinel_offer [where net = "\<lambda>k u. Raises" and w = ?w and url = ?u
      and lnk = ?u and phone_name = "''iPhone 15''"]
  show ?thesis by (simp add: n r)
qed

text \<open>Every way out of the loop, with the last event of the trace at that point.\<close>

lemma retry_loop_paths:
  "retry_loop net u cn lnk pn attempt L w = (c, w') \<Longrightarrow>
     Carrier.name c = cn \<and> link c = lnk
     \<and> ((offers c = [] \<and> last (trace w') = Print (FailedToLoad pn cn))
        \<or> (offers c = [sentinel_offer] \<and> last (trace w') = Print (FailedAfter max_retries pn cn))
        \<or> ((\<exists>x. offers c = [x]) \<and> last (trace w') = Get u))"
proof (induction net u cn lnk pn attempt L w rule: retry_loop.induct)
  case (1 net u cn lnk pn attempt L w)
  show ?case
  proof (cases "attempt \<le> max_retries")
    case False
    then have "retry_loop net u cn lnk pn attempt L w =
           (\<lparr>Carrier.name = cn, link = lnk, offers = [sentinel_offer]\<rparr>,
            print (FailedAfter max_retries pn cn) w)"
      by (simp add: retry_loop_exhausted)
    with "1.prems" show ?thesis by (auto simp: print_def)
  next
    case True
    obtain out L1 w1 where tb: "try_block net u cn lnk pn L w = (out, L1, w1)"
      by (cases "try_block net u cn lnk pn L w") auto
    show ?thesis
    proof (cases out)
      case (Returns c0)
      with True tb have "retry_loop net u cn lnk pn attempt L w = (c0, w1)"
        by (simp add: retry_loop_returns)
      with "1.prems" have "c = c0" "w' = w1" by simp_all
      with tb Returns try_block_returns [of net u cn lnk pn L w c0 L1 w1] show ?thesis
        by auto
    next
      case (Raised e)
      let ?w2 = "if attempt < max_retries then sleep 2 (print (Retry attempt pn cn e) w1) else w1"
      from True tb Raised have
        "retry_loop net u cn lnk pn attempt L w = retry_loop net u cn lnk pn (attempt + 1) L1 ?w2"
        by (simp add: retry_loop_raised)
      with "1.prems" have "retry_loop net u cn lnk pn (attempt + 1) L1 ?w2 = (c, w')" by simp
      with "1.IH" [OF True tb [symmetric] Raised refl] show ?thesis by simp
    qed
  qed
qed

text \<open>
  Claim C9: whatever the product URL and whatever the network does, the Carrier that
  the pricing fetcher returns holds at most one Offer.  The last event of the run tells
  the path taken: after the failure line of a status other than 200 the Carrier holds
  no Offer; after the line that follows the third failed attempt it holds exactly the
  one Offer of defaults; and when the last event is the request itself (the attempt
  succeeded) it holds exactly one Offer.  No other way out exists.
\<close>

theorem at_most_one_offer:
  "(let r = scrape_carrier_data net url lnk phone_name w;
        carrier = fst r;
        ev = last (trace (snd r))
    in length (offers carrier) \<le> 1
       \<and> Carrier.name carrier = extract_carrier_name url \<and> link carrier = lnk
       \<and> ((ev = Print (FailedToLoad phone_name (extract_carrier_name url))
             \<and> length (offers carrier) = 0)
          \<or> (ev = Print (FailedAfter 3 phone_name (extract_carrier_name url))
             \<and> offers carrier = [sentinel_offer])
          \<or> (ev = Get (request_url url) \<and> length (offers carrier) = 1)))"
proof -
  obtain c w' where r: "scrape_carrier_data net url lnk phone_name w = (c, w')"
    by (cases "scrape_carrier_data net url lnk phone_name w") auto
  then have "retry_loop net (request_url url) (extract_carrier_name url) lnk phone_name 1
       \<lparr>total_price_var = None, price_after_gc_var = None\<rparr>
       (w\<lparr>trace := trace w @ [Print (Started phone_name (extract_carrier_name url))]\<rparr>) = (c, w')"
    by (simp add: scrape_carrier_data_loop)
  from retry_loop_paths [OF this] show ?thesis
    by (auto simp: r Let_def max_retries_def)
qed

subsection \<open>Building the offer\<close>

lemma bind_eval_Inr: "bind_stmt (eval (Inr x)) f = f x"
  by (rule ext) (simp add: bind_stmt_def eval_def)

lemma bind_eval_Inl: "bind_stmt (eval (Inl e)) f L = (L, Inl e)"
  by (simp add: bind_stmt_def eval_def)

lemma bind_ret: "bind_stmt (ret x) f = f x"
  by (rule ext) (simp add: bind_stmt_def ret_def)

lemma bind_set_total_price:
  "bind_stmt (set_total_price v) f L = f () (L\<lparr>total_price_var := Some v\<rparr>)"
  by (simp add: bind_stmt_def set_total_price_def)

lemma bind_set_price_after_gc:
  "bind_stmt (set_price_after_gc v) f L = f () (L\<lparr>price_after_gc_var := Some v\<rparr>)"
  by (simp add: bind_stmt_def set_price_after_gc_def)

lemma bind_get_total_price:
  "bind_stmt get_total_price f L =
     (case total_price_var L of None \<Rightarrow> (L, Inl UnboundLocalError) | Some v \<Rightarrow> f v L)"
  by (simp add: bind_stmt_def get_total_price_def split: option.splits)

lemma bind_get_price_after_gc:
  "bind_stmt get_price_after_gc f L =
     (case price_after_gc_var L of None \<Rightarrow> (L, Inl UnboundLocalError) | Some v \<Rightarrow> f v L)"
  by (simp add: bind_stmt_def get_price_after_gc_def split: option.splits)

lemma bind_assoc: "bind_stmt (bind_stmt m f) g = bind_stmt m (\<lambda>x. bind_stmt (f x) g)"
  by (rule ext) (simp add: bind_stmt_def split: prod.splits sum.splits)

lemmas stmt_laws = bind_eval_Inr bind_eval_Inl bind_ret bind_set_total_price
  bind_set_price_after_gc bind_get_total_price bind_get_price_after_gc

text \<open>The float that the JSON text \<^verbatim>\<open>45.0\<close> decodes to is 45 exactly.\<close>

lemma flt_45: "flt 45 = Finite False (45 * 2 ^ 47) (- 47)"
  by code_simp

lemma build_offer_keep_it_45:
  "build_offer
     (JList [JDict [(''type'', JStr ''keep-it''), (''monthly'', JFloat (flt 45)),
                    (''downPayment'', JInt 0), (''giftCard'', JInt 50)]])
     \<lparr>total_price_var = None, price_after_gc_var = None\<rparr> =
   (\<lparr>total_price_var = Some (JFloat (flt 1080)), price_after_gc_var = Some (JFloat (flt 1030))\<rparr>,
    Inr \<lparr>price_after_gc = JStr ''1030.0'', gift_card = JInt 50, total_price = JStr ''1080.00'',
         monthly_price = JFloat (flt 45), down_payment = JInt 0, bib_premium = JStr ''N/A'',
         bib_monthly = JStr ''N/A'', down_return = JStr ''N/A''\<rparr>)"
  by code_simp

text \<open>
  Claim C2: when the first response of a pricing fetch has status 200 and the payload
  \<^verbatim>\<open>[{"type":"keep-it","monthly":45.0,"downPayment":0,"giftCard":50}]\<close>, the fetcher
  returns at once a Carrier with one Offer whose \<^verbatim>\<open>total_price\<close> is the string
  \<^verbatim>\<open>1080.00\<close> and whose \<^verbatim>\<open>price_after_gc\<close> is the string \<^verbatim>\<open>1030.0\<close>: the total goes
  through the format \<^verbatim>\<open>.2f\<close>, the difference through \<^verbatim>\<open>str\<close>.
\<close>

theorem keep_it_payload_offer:
  assumes "net (calls w) (request_url url) =
             Response 200
               (Some (JList [JDict [(''type'', JStr ''keep-it''), (''monthly'', JFloat (flt 45)),
                                    (''downPayment'', JInt 0), (''giftCard'', JInt 50)]]))"
  shows "scrape_carrier_data net url lnk phone_name w =
           (\<lparr>Carrier.name = extract_carrier_name url, link = lnk,
              offers = [\<lparr>price_after_gc = JStr ''1030.0'', gift_card = JInt 50,
                         total_price = JStr ''1080.00'', monthly_price = JFloat (flt 45),
                         down_payment = JInt 0, bib_premium = JStr ''N/A'',
                         bib_monthly = JStr ''N/A'', down_return = JStr ''N/A''\<rparr>]\<rparr>,
            w\<lparr>calls := Suc (calls w),
              trace := trace w @
                [Print (Started phone_name (extract_carrier_name url)),
                 Get (request_url url)]\<rparr>)"
proof -
  let ?w1 = "w\<lparr>trace := trace w @ [Print (Started phone_name (extract_carrier_name url))]\<rparr>"
  from assms have "net (calls ?w1) (request_url url) =
             Response 200
               (Some (JList [JDict [(''type'', JStr ''keep-it''), (''monthly'', JFloat (flt 45)),
                                    (''downPayment'', JInt 0), (''giftCard'', JInt 50)]]))"
    by simp
  from try_block_offer
    [where net = net and w = ?w1 and u = "request_url url", OF this build_offer_keep_it_45]
  show ?thesis
    by (simp add: scrape_carrier_data_loop retry_loop_returns max_retries_def)
qed

theorem keep_it_payload_offer_witness:
  "scrape_carrier_data
     (\<lambda>k u. Response 200
        (Some (JList [JDict [(''type'', JStr ''keep-it''), (''monthly'', JFloat (flt 45)),
                             (''downPayment'', JInt 0), (''giftCard'', JInt 50)]])))
     ''https://www.bestbuy.ca/en-ca/product/fido-iphone-15/17094220''
     ''https://www.bestbuy.ca/en-ca/product/fido-iphone-15/17094220'' ''iPhone 15''
     \<lparr>calls = 0, trace = []\<rparr> =
   (\<lparr>Carrier.name = ''Fido'',
      link = ''https://www.bestbuy.ca/en-ca/product/fido-iphone-15/17094220'',
      offers = [\<lparr>price_after_gc = JStr ''1030.0'', gift_card = JInt 50,
                 total_price = JStr ''1080.00'', monthly_price = JFloat (flt 45),
                 down_payment = JInt 0, bib_premium = JStr ''N/A'',
                 bib_monthly = JStr ''N/A'', down_return = JStr ''N/A''\<rparr>]\<rparr>,
    \<lparr>calls = 1,
      trace = [Print (Started ''iPhone 15'' ''Fido''), Get (api_url ''17094220'')]\<rparr>)"
proof -
  let ?u = "''https://www.bestbuy.ca/en-ca/product/fido-iphone-15/17094220''"
  let ?w = "\<lparr>calls = 0, trace = []\<rparr>"
  let ?net = "\<lambda>(k::nat) (u::string). Response 200
        (Some (JList [JDict [(''type'', JStr ''keep-it''), (''monthly'', JFloat (flt 45)),
                             (''downPayment'', JInt 0), (''giftCard'', JInt 50)]]))"
  have n: "extract_carrier_name ?u = ''Fido''" by code_simp
  have r: "request_url ?u = api_url ''17094220''" by code_simp
  have "?net (calls ?w) (request_url ?u) = Response 200
        (Some (JList [JDict [(''type'', JStr ''keep-it''), (''monthly'', JFloat (flt 45)),
                             (''downPayment'', JInt 0), (''giftCard'', JInt 50)]]))"
    by simp
  with keep_it_payload_offer [where net = ?net and w = ?w and url = ?u and lnk = ?u
      and phone_name = "''iPhone 15''"]
  show ?thesis by (simp add: n r)
qed

end
